theory Spec2Isabelle
  imports Main "HOL-Library.Sublist"
begin

section \<open>Python values and the string builtins the library calls\<close>

text \<open>
  The library is dynamically typed: whatever a requirement returns is handed to the next one.
  The values covered here are \<open>None\<close>, booleans, unbounded integers, strings and lists.
  A string is a list of characters, each a code point below 256; whitespace, case mapping,
  decimal digits and printable characters are what Python (CPython 3.11) takes them to be
  on these code points.
\<close>

datatype val = VNone | VBool bool | VInt int | VStr string | VList "val list"

text \<open>\<open>sep.join(xs)\<close>\<close>

fun py_join :: "string \<Rightarrow> string list \<Rightarrow> string" where
  "py_join sep [] = []"
| "py_join sep [x] = x"
| "py_join sep (x # y # ys) = x @ sep @ py_join sep (y # ys)"

text \<open>
  \<open>str(n)\<close> for an integer: decimal digits, a minus sign for negative numbers. (The
  interpreter refuses to write an integer of more than 4300 digits; the integers the
  library writes, the bounds of a range and the numbers of a menu, are taken to be shorter.)
\<close>

definition digit_char :: "nat \<Rightarrow> char" where
  "digit_char d = ''0123456789abcdef'' ! d"

fun show_nat :: "nat \<Rightarrow> string" where
  "show_nat n = (if n < 10 then [digit_char n] else show_nat (n div 10) @ [digit_char (n mod 10)])"

declare show_nat.simps [simp del]

definition show_int :: "int \<Rightarrow> string" where
  "show_int i = (if i < 0 then CHR ''-'' # show_nat (nat (- i)) else show_nat (nat i))"

text \<open>\<open>repr(s)\<close> for a string, then \<open>repr\<close> and \<open>str\<close> for values.\<close>

definition repr_char :: "char \<Rightarrow> char \<Rightarrow> string" where
  "repr_char quote c =
     (if c = quote \<or> c = CHR 0x5C then [CHR 0x5C, c]
      else if c = CHR 0x09 then [CHR 0x5C, CHR ''t'']
      else if c = CHR 0x0A then [CHR 0x5C, CHR ''n'']
      else if c = CHR 0x0D then [CHR 0x5C, CHR ''r'']
      else if (of_char c :: nat) < 32 \<or> (127 \<le> (of_char c :: nat) \<and> (of_char c :: nat) \<le> 160)
              \<or> c = CHR 0xAD
        then [CHR 0x5C, CHR ''x'', digit_char (of_char c div 16), digit_char (of_char c mod 16)]
      else [c])"

definition repr_str :: "string \<Rightarrow> string" where
  "repr_str s =
     (let quote = (if CHR 0x27 \<in> set s \<and> CHR 0x22 \<notin> set s then CHR 0x22 else CHR 0x27)
      in [quote] @ concat (map (repr_char quote) s) @ [quote])"

fun py_repr :: "val \<Rightarrow> string" where
  "py_repr VNone = ''None''"
| "py_repr (VBool b) = (if b then ''True'' else ''False'')"
| "py_repr (VInt i) = show_int i"
| "py_repr (VStr s) = repr_str s"
| "py_repr (VList vs) = ''['' @ py_join '', '' (map py_repr vs) @ '']''"

fun py_str :: "val \<Rightarrow> string" where
  "py_str (VStr s) = s"
| "py_str v = py_repr v"

text \<open>Truthiness, as \<open>not x\<close> and \<open>if x\<close> read it.\<close>

fun truthy :: "val \<Rightarrow> bool" where
  "truthy VNone = False"
| "truthy (VBool b) = b"
| "truthy (VInt i) = (i \<noteq> 0)"
| "truthy (VStr s) = (s \<noteq> [])"
| "truthy (VList vs) = (vs \<noteq> [])"

text \<open>
  The number a value stands for in an integer comparison (\<open>bool\<close> is a subclass of
  \<open>int\<close>); \<open>None\<close> where the comparison with an integer raises \<open>TypeError\<close>.
\<close>

fun num_of :: "val \<Rightarrow> int option" where
  "num_of (VInt i) = Some i"
| "num_of (VBool b) = Some (if b then 1 else 0)"
| "num_of _ = None"

text \<open>\<open>s.strip()\<close> and \<open>s.lower()\<close>\<close>

definition is_space :: "char \<Rightarrow> bool" where
  "is_space c \<longleftrightarrow>
     c \<in> set [CHR 0x20, CHR 0x09, CHR 0x0A, CHR 0x0B, CHR 0x0C, CHR 0x0D,
              CHR 0x1C, CHR 0x1D, CHR 0x1E, CHR 0x1F, CHR 0x85, CHR 0xA0]"

definition strip :: "string \<Rightarrow> string" where
  "strip s = rev (dropWhile is_space (rev (dropWhile is_space s)))"

definition upper_letters :: string where
  "upper_letters =
     ''ABCDEFGHIJKLMNOPQRSTUVWXYZ'' @
     [CHR 0xC0, CHR 0xC1, CHR 0xC2, CHR 0xC3, CHR 0xC4, CHR 0xC5, CHR 0xC6, CHR 0xC7,
      CHR 0xC8, CHR 0xC9, CHR 0xCA, CHR 0xCB, CHR 0xCC, CHR 0xCD, CHR 0xCE, CHR 0xCF,
      CHR 0xD0, CHR 0xD1, CHR 0xD2, CHR 0xD3, CHR 0xD4, CHR 0xD5, CHR 0xD6, CHR 0xD8,
      CHR 0xD9, CHR 0xDA, CHR 0xDB, CHR 0xDC, CHR 0xDD, CHR 0xDE]"

definition lower_letters :: string where
  "lower_letters =
     ''abcdefghijklmnopqrstuvwxyz'' @
     [CHR 0xE0, CHR 0xE1, CHR 0xE2, CHR 0xE3, CHR 0xE4, CHR 0xE5, CHR 0xE6, CHR 0xE7,
      CHR 0xE8, CHR 0xE9, CHR 0xEA, CHR 0xEB, CHR 0xEC, CHR 0xED, CHR 0xEE, CHR 0xEF,
      CHR 0xF0, CHR 0xF1, CHR 0xF2, CHR 0xF3, CHR 0xF4, CHR 0xF5, CHR 0xF6, CHR 0xF8,
      CHR 0xF9, CHR 0xFA, CHR 0xFB, CHR 0xFC, CHR 0xFD, CHR 0xFE]"

definition lower_char :: "char \<Rightarrow> char" where
  "lower_char c =
     (case map_of (zip upper_letters lower_letters) c of
        None \<Rightarrow> c
      | Some l \<Rightarrow> l)"

definition lower :: "string \<Rightarrow> string" where
  "lower s = map lower_char s"

text \<open>
  \<open>int(s)\<close> for a string: surrounding whitespace is dropped (for the parser of
  integers that is the space, the tab, the newline, the vertical tab, the form feed, the
  carriage return and the two whitespace characters above 127, but not the separators
  \<open>0x1C\<close> to \<open>0x1F\<close>), one sign is allowed, then decimal digits, with single
  underscores between digits. A number of more than \<open>sys.int_max_str_digits\<close> digits,
  4300 unless the interpreter is configured otherwise, is refused, the underscores not
  counted. \<open>None\<close> is \<open>ValueError\<close>.
\<close>

definition int_space :: "char \<Rightarrow> bool" where
  "int_space c \<longleftrightarrow>
     c \<in> set [CHR 0x20, CHR 0x09, CHR 0x0A, CHR 0x0B, CHR 0x0C, CHR 0x0D, CHR 0x85, CHR 0xA0]"

definition max_str_digits :: nat where
  "max_str_digits = 4300"

definition digit_val :: "char \<Rightarrow> nat option" where
  "digit_val c = map_of (zip ''0123456789'' [0, 1, 2, 3, 4, 5, 6, 7, 8, 9]) c"

fun after_digit :: "nat \<Rightarrow> string \<Rightarrow> nat option" where
  "after_digit acc [] = Some acc"
| "after_digit acc (c # cs) =
     (if c = CHR ''_'' then
        (case cs of
           [] \<Rightarrow> None
         | d # ds \<Rightarrow> (case digit_val d of None \<Rightarrow> None | Some k \<Rightarrow> after_digit (10 * acc + k) ds))
      else
        (case digit_val c of None \<Rightarrow> None | Some k \<Rightarrow> after_digit (10 * acc + k) cs))"

definition py_digits :: "string \<Rightarrow> nat option" where
  "py_digits s =
     (case s of
        [] \<Rightarrow> None
      | c # cs \<Rightarrow>
          (case digit_val c of
             None \<Rightarrow> None
           | Some k \<Rightarrow>
               (case after_digit k cs of
                  None \<Rightarrow> None
                | Some n \<Rightarrow>
                    if length (filter (\<lambda>d. d \<noteq> CHR ''_'') s) > max_str_digits then None
                    else Some n)))"

definition int_of_str :: "string \<Rightarrow> int option" where
  "int_of_str s =
     (case rev (dropWhile int_space (rev (dropWhile int_space s))) of
        [] \<Rightarrow> None
      | c # cs \<Rightarrow>
          if c = CHR ''+'' then map_option int (py_digits cs)
          else if c = CHR ''-'' then map_option (\<lambda>n. - int n) (py_digits cs)
          else map_option int (py_digits (c # cs)))"

section \<open>Validation outcomes and the other exceptions\<close>

text \<open>
  The four subclasses of \<open>ValidationError\<close>, each with the arguments of its constructor,
  and their \<open>__str__\<close>.
\<close>

datatype outcome = Empty | NotANumber val | NotInRange int int | NotAnOption val

fun outcome_str :: "outcome \<Rightarrow> string" where
  "outcome_str Empty = ''Empty''"
| "outcome_str (NotANumber v) = [CHR 0x27] @ py_str v @ [CHR 0x27] @ '' is not a number''"
| "outcome_str (NotInRange mn mx) =
     ''Please provide a value between '' @ show_int mn @ '' and '' @ show_int mx"
| "outcome_str (NotAnOption opts) = ''Please select one of '' @ py_str opts"

text \<open>
  What a call can raise: a \<open>ValidationError\<close>, the cancellation \<open>Exit\<close>, and the
  exceptions of the interpreter that the library's own statements can cause.
\<close>

datatype exn =
  ValidationError outcome | Exit | AssertionError | TypeError | ValueError | KeyError | EOFError

text \<open>\<open>int(x)\<close> for any value.\<close>

fun py_int :: "val \<Rightarrow> exn + int" where
  "py_int (VStr s) = (case int_of_str s of None \<Rightarrow> Inl ValueError | Some n \<Rightarrow> Inr n)"
| "py_int (VInt i) = Inr i"
| "py_int (VBool b) = Inr (if b then 1 else 0)"
| "py_int VNone = Inl TypeError"
| "py_int (VList vs) = Inl TypeError"

section \<open>Requirements\<close>

text \<open>
  The base class \<open>Requirement\<close> and its subclasses, each with the fields its
  constructor stores. The options of a \<open>Choice\<close> are the items of the dictionary in
  insertion order; the requirements of a \<open>Chain\<close> and the options of a \<open>Menu\<close> are the
  tuples the constructors are given, as lists.
\<close>

datatype requirement =
    Requirement
  | Chain "requirement list"
  | NotEmpty
  | Number
  | Between int int
  | Choice "(string \<times> val) list"
  | Menu "val list"

fun hint :: "requirement \<Rightarrow> string" where
  "hint (Chain requirements) =
     py_join '', '' [hint requirement. requirement \<leftarrow> requirements, hint requirement \<noteq> []]"
| "hint (Between mn mx) =
     (if mn = mx then show_int mn else show_int mn @ '' - '' @ show_int mx)"
| "hint (Choice options_dict) = py_join ''/'' (map fst options_dict)"
| "hint Requirement = []"
| "hint NotEmpty = []"
| "hint Number = []"
| "hint (Menu options) = []"

text \<open>\<open>__str__\<close>, the description shown once before the first read.\<close>

fun describe :: "requirement \<Rightarrow> string" where
  "describe (Chain requirements) =
     py_join [CHR 0x0A]
       [describe requirement. requirement \<leftarrow> requirements, describe requirement \<noteq> []]"
| "describe (Menu options) =
     py_join [CHR 0x0A] (map (\<lambda>(i, v). show_nat i @ ''. '' @ py_str v) (enumerate 1 options))"
| "describe Requirement = []"
| "describe NotEmpty = []"
| "describe Number = []"
| "describe (Between mn mx) = []"
| "describe (Choice options_dict) = []"

text \<open>
  \<open>meet\<close>. A raised exception is \<open>Inl\<close>, a returned value \<open>Inr\<close>. \<open>chain_loop\<close> is
  the \<open>for\<close> loop of \<open>Chain.meet\<close>: an exception raised by one requirement leaves the
  loop.
\<close>

fun meet :: "requirement \<Rightarrow> val \<Rightarrow> exn + val"
  and chain_loop :: "requirement list \<Rightarrow> val \<Rightarrow> exn + val" where
  "meet Requirement v = Inr v"
| "meet (Chain requirements) v = chain_loop requirements v"
| "meet NotEmpty v = (if \<not> truthy v then Inl (ValidationError Empty) else Inr v)"
| "meet Number v =
     (case py_int v of
        Inr n \<Rightarrow> Inr (VInt n)
      | Inl e \<Rightarrow> if e = ValueError then Inl (ValidationError (NotANumber v)) else Inl e)"
| "meet (Between mn mx) v =
     (case num_of v of
        None \<Rightarrow> Inl TypeError
      | Some n \<Rightarrow>
          if \<not> (mn \<le> n \<and> n \<le> mx) then Inl (ValidationError (NotInRange mn mx)) else Inr v)"
| "meet (Choice options_dict) v =
     (case v of
        VList vs \<Rightarrow> Inl TypeError
      | VStr s \<Rightarrow>
          if \<not> s \<in> set (map fst options_dict)
          then Inl (ValidationError (NotAnOption (VStr (hint (Choice options_dict)))))
          else (case map_of options_dict s of None \<Rightarrow> Inl KeyError | Some x \<Rightarrow> Inr x)
      | _ \<Rightarrow> Inl (ValidationError (NotAnOption (VStr (hint (Choice options_dict))))))"
| "meet (Menu options) v =
     (case num_of v of
        None \<Rightarrow> Inl TypeError
      | Some n \<Rightarrow>
          if \<not> (1 \<le> n \<and> n \<le> int (length options)) then Inl AssertionError
          else Inr (options ! nat (n - 1)))"
| "chain_loop [] v = Inr v"
| "chain_loop (requirement # requirements) v =
     (case meet requirement v of
        Inl e \<Rightarrow> Inl e
      | Inr v' \<Rightarrow> chain_loop requirements v')"

text \<open>
  The calls \<open>requirement.meet(value)\<close> that the loop of \<open>Chain.meet\<close> makes, in
  order, each with the argument it is given.
\<close>

fun chain_calls :: "requirement list \<Rightarrow> val \<Rightarrow> (requirement \<times> val) list" where
  "chain_calls [] v = []"
| "chain_calls (requirement # requirements) v =
     (requirement, v) #
       (case meet requirement v of
          Inl e \<Rightarrow> []
        | Inr v' \<Rightarrow> chain_calls requirements v')"

section \<open>The prompt\<close>

text \<open>
  A \<open>Prompt\<close> holds the prompt character and the reader. The reader is a function of
  the number of lines read so far: its \<open>k\<close>-th call returns line \<open>k\<close>, or raises
  \<open>EOFError\<close> where there is none. The writer is not a field: every call of it is
  recorded, with the object printed and the \<open>end\<close> argument when one is given, in the
  log of the console, which also records each call of the reader (with the prompt
  character it is given) and each call of \<open>requirement.meet\<close> by the loop.
\<close>

record prompt_config =
  character :: string
  input :: "nat \<Rightarrow> string option"

datatype printed = Text string | Error outcome

datatype event = Print printed "string option" | Input string | Meet val

record console =
  reads :: nat
  events :: "event list"

definition emit :: "event \<Rightarrow> console \<Rightarrow> console" where
  "emit e st = st\<lparr>events := events st @ [e]\<rparr>"

text \<open>The text the writer shows for a printed object.\<close>

fun printed_str :: "printed \<Rightarrow> string" where
  "printed_str (Text s) = s"
| "printed_str (Error e) = outcome_str e"

definition EXIT :: "string list" where
  "EXIT = [''exit'', ''quit'']"

text \<open>\<open>sub in s\<close> for strings.\<close>

fun starts_with :: "string \<Rightarrow> string \<Rightarrow> bool" where
  "starts_with s [] = True"
| "starts_with [] (p # ps) = False"
| "starts_with (c # cs) (p # ps) = (c = p \<and> starts_with cs ps)"

fun contains :: "string \<Rightarrow> string \<Rightarrow> bool" where
  "contains [] sub = (sub = [])"
| "contains (c # cs) sub = (starts_with (c # cs) sub \<or> contains cs sub)"

definition test_exit :: "string \<Rightarrow> exn + unit" where
  "test_exit string =
     (let string = lower string;
          should_exit = list_ex (\<lambda>command. contains string command) EXIT
      in if should_exit then Inl Exit else Inr ())"

definition print_hint :: "requirement \<Rightarrow> console \<Rightarrow> console" where
  "print_hint requirement st =
     (let h = hint requirement
      in if h = [] then st else emit (Print (Text (''('' @ h @ '')'')) (Some '' '')) st)"

definition print_requirement :: "requirement \<Rightarrow> console \<Rightarrow> console" where
  "print_requirement requirement st =
     (let display = describe requirement
      in if display = [] then st else emit (Print (Text display) None) st)"

text \<open>
  The \<open>while True\<close> loop of \<open>_prompt\<close>. It may run forever: \<open>None\<close> is the loop that
  never returns; \<open>Some\<close> carries the console as the call leaves it and what the call
  returns or raises.
\<close>

partial_function (option) prompt_loop ::
  "prompt_config \<Rightarrow> requirement \<Rightarrow> console \<Rightarrow> (console \<times> (exn + val)) option" where
  "prompt_loop P requirement st =
     (let st1 = emit (Input (character P)) (print_hint requirement st)
      in case input P (reads st1) of
           None \<Rightarrow> Some (st1, Inl EOFError)
         | Some line \<Rightarrow>
             (let st2 = st1\<lparr>reads := Suc (reads st1)\<rparr>;
                  inp = strip line
              in case test_exit inp of
                   Inl e \<Rightarrow> Some (st2, Inl e)
                 | Inr u \<Rightarrow>
                     (let st3 = emit (Meet (VStr inp)) st2
                      in case meet requirement (VStr inp) of
                           Inr v \<Rightarrow> Some (st3, Inr v)
                         | Inl (ValidationError e) \<Rightarrow>
                             prompt_loop P requirement (emit (Print (Error e) None) st3)
                         | Inl x \<Rightarrow> Some (st3, Inl x))))"

declare prompt_loop.simps [code]

definition prompt ::
  "prompt_config \<Rightarrow> requirement \<Rightarrow> console \<Rightarrow> (console \<times> (exn + val)) option" where
  "prompt P requirement st = prompt_loop P requirement (print_requirement requirement st)"

definition between ::
  "prompt_config \<Rightarrow> int \<Rightarrow> int \<Rightarrow> console \<Rightarrow> (console \<times> (exn + val)) option" where
  "between P mn mx st = prompt P (Chain [Number, Between mn mx]) st"

definition choose_option ::
  "prompt_config \<Rightarrow> (string \<times> val) list \<Rightarrow> console \<Rightarrow> (console \<times> (exn + val)) option" where
  "choose_option P options st = prompt P (Choice options) st"

definition menu ::
  "prompt_config \<Rightarrow> val list \<Rightarrow> console \<Rightarrow> (console \<times> (exn + val)) option" where
  "menu P options st =
     prompt P (Chain [Number, Between 1 (int (length options)), Menu options]) st"

definition name :: "prompt_config \<Rightarrow> console \<Rightarrow> (console \<times> (exn + val)) option" where
  "name P st = prompt P NotEmpty st"

definition number :: "prompt_config \<Rightarrow> console \<Rightarrow> (console \<times> (exn + val)) option" where
  "number P st = prompt P Number st"

section \<open>The nested application of the specification\<close>

text \<open>
  The nested application \<open>r(n-1).meet(... r1.meet(r0.meet(raw)))\<close> as the specification
  words it: the requirements are applied from left to right, each to the value the one
  before it returned, and a failure is handed on unchanged.
\<close>

definition nested_application :: "requirement list \<Rightarrow> val \<Rightarrow> exn + val" where
  "nested_application rs raw =
     foldl (\<lambda>res r. case res of Inl e \<Rightarrow> Inl e | Inr x \<Rightarrow> meet r x) (Inr raw) rs"

section \<open>Auxiliary facts\<close>

lemma starts_with_iff: "starts_with s p \<longleftrightarrow> (\<exists>q. s = p @ q)"
  by (induction s p rule: starts_with.induct) auto

lemma contains_iff: "contains s sub \<longleftrightarrow> (\<exists>p q. s = p @ sub @ q)"
proof (induction s)
  case Nil
  then show ?case by auto
next
  case (Cons c cs)
  show ?case
  proof
    assume "contains (c # cs) sub"
    then consider "starts_with (c # cs) sub" | "contains cs sub" by auto
    then show "\<exists>p q. c # cs = p @ sub @ q"
    proof cases
      case 1
      then obtain q where "c # cs = sub @ q" by (auto simp: starts_with_iff)
      then have "c # cs = [] @ sub @ q" by simp
      then show ?thesis by blast
    next
      case 2
      then obtain p q where "cs = p @ sub @ q" using Cons.IH by blast
      then have "c # cs = (c # p) @ sub @ q" by simp
      then show ?thesis by blast
    qed
  next
    assume "\<exists>p q. c # cs = p @ sub @ q"
    then obtain p q where pq: "c # cs = p @ sub @ q" by blast
    show "contains (c # cs) sub"
    proof (cases p)
      case Nil
      with pq have "starts_with (c # cs) sub" by (auto simp: starts_with_iff)
      then show ?thesis by simp
    next
      case (Cons a p')
      with pq have "cs = p' @ sub @ q" by simp
      then have "contains cs sub" using Cons.IH by blast
      then show ?thesis by simp
    qed
  qed
qed

lemma foldl_failed:
  "foldl (\<lambda>res r. case res of Inl e \<Rightarrow> Inl e | Inr x \<Rightarrow> meet r x) (Inl e) rs = Inl e"
  by (induction rs) auto

lemma chain_loop_nested: "chain_loop rs v = nested_application rs v"
  unfolding nested_application_def
proof (induction rs arbitrary: v)
  case Nil
  show ?case by simp
next
  case (Cons r rs)
  show ?case by (cases "meet r v") (simp_all add: Cons.IH foldl_failed)
qed

lemma chain_loop_append:
  "chain_loop (xs @ ys) v = (case chain_loop xs v of Inl e \<Rightarrow> Inl e | Inr x \<Rightarrow> chain_loop ys x)"
  by (induction xs arbitrary: v) (auto split: sum.splits)

lemma chain_calls_append:
  "chain_calls (xs @ ys) v =
     chain_calls xs v @ (case chain_loop xs v of Inl e \<Rightarrow> [] | Inr x \<Rightarrow> chain_calls ys x)"
  by (induction xs arbitrary: v) (auto split: sum.splits)

lemma chain_calls_all:
  "chain_loop xs v = Inr x \<Longrightarrow> map fst (chain_calls xs v) = xs"
  by (induction xs arbitrary: v) (auto split: sum.splits)

lemma chain_first_failure:
  assumes "i < length rs" and "chain_loop (take i rs) raw = Inr x" and "meet (rs ! i) x = Inl e"
  shows "chain_loop rs raw = Inl e" and "map fst (chain_calls rs raw) = take (Suc i) rs"
proof -
  have split: "rs = take i rs @ (rs ! i) # drop (Suc i) rs"
    using assms(1) by (simp add: id_take_nth_drop)
  have "chain_loop (take i rs @ (rs ! i) # drop (Suc i) rs) raw = Inl e"
    using assms(2,3) by (simp add: chain_loop_append)
  then show "chain_loop rs raw = Inl e" using split by simp
  have "map fst (chain_calls (take i rs @ (rs ! i) # drop (Suc i) rs) raw) = take i rs @ [rs ! i]"
    using assms(2,3) by (simp add: chain_calls_append chain_calls_all)
  then show "map fst (chain_calls rs raw) = take (Suc i) rs"
    using split assms(1) by (simp add: take_Suc_conv_app_nth)
qed

lemma comprehension_filter:
  "[f x. x \<leftarrow> xs, f x \<noteq> []] = filter (\<lambda>h. h \<noteq> []) (map f xs)"
  by (induction xs) simp_all

lemma py_join_concat: "py_join sep (x # xs) = x @ concat (map (\<lambda>y. sep @ y) xs)"
  by (induction xs arbitrary: x) simp_all

lemma menu_chain_calls:
  "(Menu options, v) \<in> set (chain_calls [Number, Between 1 (int (length options)), Menu options] raw)
   \<Longrightarrow> \<exists>n. v = VInt n \<and> 1 \<le> n \<and> n \<le> int (length options)"
  by (auto split: sum.splits if_splits)

lemma py_int_raises: "py_int v = Inl e \<Longrightarrow> e = ValueError \<or> e = TypeError"
  by (cases v) (auto split: option.splits)

lemma menu_chain_no_assertion:
  "meet (Chain [Number, Between 1 (int (length options)), Menu options]) raw \<noteq> Inl AssertionError"
  by (auto split: sum.splits if_splits dest: py_int_raises)

text \<open>\<open>int\<close> reads back what \<open>str\<close> writes for an integer.\<close>

lemma digit_cases: "d < 10 \<Longrightarrow> d \<in> {0, 1, 2, 3, 4, 5, 6, 7, 8, 9::nat}"
  by auto

lemma digit_val_digit_char: "d < 10 \<Longrightarrow> digit_val (digit_char d) = Some d"
  by (drule digit_cases) (auto simp: digit_val_def digit_char_def)

lemma digit_char_plain:
  "d < 10 \<Longrightarrow> digit_char d \<noteq> CHR ''_'' \<and> digit_char d \<noteq> CHR ''+''
     \<and> digit_char d \<noteq> CHR ''-'' \<and> \<not> int_space (digit_char d)"
  by (drule digit_cases) (auto simp: digit_char_def int_space_def)


lemma show_nat_shape:
  "show_nat n \<noteq> [] \<and> (\<exists>d<10. hd (show_nat n) = digit_char d)
     \<and> last (show_nat n) = digit_char (n mod 10)"
proof (induction n rule: show_nat.induct)
  case (1 n)
  show ?case
  proof (cases "n < 10")
    case True
    then show ?thesis by (auto simp: show_nat.simps [of n])
  next
    case False
    with 1 show ?thesis by (auto simp: show_nat.simps [of n])
  qed
qed

lemma after_digit_show_nat:
  "after_digit acc (show_nat n @ rest) = after_digit (acc * 10 ^ length (show_nat n) + n) rest"
proof (induction n arbitrary: acc rest rule: show_nat.induct)
  case (1 n)
  show ?case
  proof (cases "n < 10")
    case True
    then show ?thesis
      using digit_val_digit_char [of n] digit_char_plain [of n]
      by (simp add: show_nat.simps [of n] mult.commute)
  next
    case False
    have d: "n mod 10 < 10" by simp
    have "after_digit acc (show_nat n @ rest)
        = after_digit acc (show_nat (n div 10) @ (digit_char (n mod 10) # rest))"
      using False by (simp add: show_nat.simps [of n])
    also have "\<dots> = after_digit (acc * 10 ^ length (show_nat (n div 10)) + n div 10)
        (digit_char (n mod 10) # rest)"
      using False by (rule "1.IH")
    also have "\<dots> = after_digit
        (10 * (acc * 10 ^ length (show_nat (n div 10)) + n div 10) + n mod 10) rest"
      using digit_val_digit_char [OF d] digit_char_plain [OF d] by simp
    also have "10 * (acc * 10 ^ length (show_nat (n div 10)) + n div 10) + n mod 10
        = acc * 10 ^ length (show_nat n) + n"
      using False by (simp add: show_nat.simps [of n] algebra_simps)
    finally show ?thesis .
  qed
qed

lemma show_nat_chars: "c \<in> set (show_nat n) \<Longrightarrow> \<exists>d<10. c = digit_char d"
proof (induction n rule: show_nat.induct)
  case (1 n)
  show ?case
  proof (cases "n < 10")
    case True
    with "1.prems" show ?thesis by (auto simp: show_nat.simps [of n])
  next
    case False
    from False "1.prems" consider "c \<in> set (show_nat (n div 10))" | "c = digit_char (n mod 10)"
      by (auto simp: show_nat.simps [of n])
    then show ?thesis
    proof cases
      case 1
      with False "1.IH" show ?thesis by simp
    next
      case 2
      moreover have "n mod 10 < 10" by simp
      ultimately show ?thesis by blast
    qed
  qed
qed

lemma show_nat_counted: "filter (\<lambda>d. d \<noteq> CHR ''_'') (show_nat n) = show_nat n"
proof -
  have "c \<noteq> CHR ''_''" if "c \<in> set (show_nat n)" for c
    using show_nat_chars [OF that] digit_char_plain by auto
  then show ?thesis by (simp add: filter_id_conv)
qed

lemma py_digits_show_nat:
  "py_digits (show_nat n) = (if length (show_nat n) \<le> max_str_digits then Some n else None)"
proof -
  obtain c cs where s: "show_nat n = c # cs"
    using show_nat_shape [of n] by (cases "show_nat n") auto
  with show_nat_shape [of n] obtain d where d: "d < 10" "c = digit_char d" by auto
  have parsed: "after_digit d cs = Some n"
    using after_digit_show_nat [of 0 n "[]"] digit_val_digit_char [OF d(1)]
      digit_char_plain [OF d(1)]
    by (simp add: s d(2))
  have "py_digits (c # cs) =
      (if length (filter (\<lambda>d. d \<noteq> CHR ''_'') (c # cs)) > max_str_digits then None else Some n)"
    using digit_val_digit_char [OF d(1)] parsed by (simp add: py_digits_def d(2))
  then show ?thesis
    using show_nat_counted [of n] by (simp add: s not_less [symmetric])
qed

lemma strip_unchanged:
  "s \<noteq> [] \<Longrightarrow> \<not> sp (hd s) \<Longrightarrow> \<not> sp (last s)
     \<Longrightarrow> rev (dropWhile sp (rev (dropWhile sp s))) = s"
proof -
  assume s: "s \<noteq> []" and h: "\<not> sp (hd s)" and l: "\<not> sp (last s)"
  have keep: "dropWhile sp xs = xs" if "xs \<noteq> []" "\<not> sp (hd xs)" for xs :: "'a list"
    using that by (cases xs) simp_all
  have "dropWhile sp (rev s) = rev s"
    using s l by (intro keep) (simp_all add: hd_rev)
  then show ?thesis using s h by (simp add: keep)
qed

lemma int_of_str_show_int:
  "int_of_str (show_int i) =
     (if length (show_nat (nat \<bar>i\<bar>)) \<le> max_str_digits then Some i else None)"
proof (cases "i < 0")
  case True
  let ?s = "CHR ''-'' # show_nat (nat (- i))"
  have "\<not> int_space (last ?s)"
    using show_nat_shape [of "nat (- i)"] digit_char_plain [of "nat (- i) mod 10"] by simp
  moreover have "\<not> int_space (hd ?s)" by (simp add: int_space_def)
  ultimately have "rev (dropWhile int_space (rev (dropWhile int_space ?s))) = ?s"
    by (intro strip_unchanged) simp_all
  moreover have "nat \<bar>i\<bar> = nat (- i)" using True by simp
  ultimately show ?thesis
    using True by (simp add: int_of_str_def show_int_def py_digits_show_nat)
next
  case False
  let ?s = "show_nat (nat i)"
  obtain c cs where s: "?s = c # cs"
    using show_nat_shape [of "nat i"] by (cases ?s) auto
  with show_nat_shape [of "nat i"] obtain d where d: "d < 10" "c = digit_char d" by auto
  have "\<not> int_space (last ?s)"
    using show_nat_shape [of "nat i"] digit_char_plain [of "nat i mod 10"] by simp
  moreover have "\<not> int_space (hd ?s)"
    using s d digit_char_plain [of d] by simp
  ultimately have "rev (dropWhile int_space (rev (dropWhile int_space ?s))) = ?s"
    using s by (intro strip_unchanged) simp_all
  moreover have "py_digits (c # cs) =
      (if length (c # cs) \<le> max_str_digits then Some (nat i) else None)"
    using py_digits_show_nat [of "nat i"] s by simp
  moreover have "nat \<bar>i\<bar> = nat i" using False by simp
  ultimately show ?thesis
    using False s d digit_char_plain [of d]
    by (simp add: int_of_str_def show_int_def)
qed

text \<open>The definitions a concrete call of \<open>int\<close> on a string unfolds.\<close>

lemmas parse_simps =
  int_of_str_def int_space_def strip_def is_space_def py_digits_def digit_val_def
  max_str_digits_def

text \<open>One turn of the loop of \<open>_prompt\<close>, for each way a turn can end.\<close>

lemma reads_emit [simp]: "reads (emit e st) = reads st"
  by (simp add: emit_def)

lemma events_emit [simp]: "events (emit e st) = events st @ [e]"
  by (simp add: emit_def)

lemma reads_print_hint [simp]: "reads (print_hint req st) = reads st"
  by (simp add: print_hint_def Let_def)

lemma events_print_hint:
  "events (print_hint req st) =
     events st @ (if hint req = [] then [] else [Print (Text (''('' @ hint req @ '')'')) (Some '' '')])"
  by (simp add: print_hint_def Let_def)

lemma reads_print_requirement [simp]: "reads (print_requirement req st) = reads st"
  by (simp add: print_requirement_def Let_def)

lemma events_print_requirement:
  "events (print_requirement req st) =
     events st @ (if describe req = [] then [] else [Print (Text (describe req)) None])"
  by (simp add: print_requirement_def Let_def)

lemma test_exit_iff:
  "test_exit s = Inl Exit \<longleftrightarrow> (\<exists>k \<in> set EXIT. \<exists>p q. lower s = p @ k @ q)"
  by (auto simp: test_exit_def Let_def list_ex_iff contains_iff)

lemma test_exit_cases: "test_exit s = Inl Exit \<or> test_exit s = Inr ()"
  by (simp add: test_exit_def Let_def)

lemma emit_eq: "emit e st = \<lparr>reads = reads st, events = events st @ [e]\<rparr>"
  by (cases st) (simp add: emit_def)

lemma loop_exit:
  assumes "input P (reads st) = Some line" and "test_exit (strip line) = Inl Exit"
  shows "prompt_loop P req st =
    Some (\<lparr>reads = Suc (reads st),
           events = events st
             @ (if hint req = [] then [] else [Print (Text (''('' @ hint req @ '')'')) (Some '' '')])
             @ [Input (character P)]\<rparr>, Inl Exit)"
  using assms by (subst prompt_loop.simps) (simp add: Let_def emit_eq events_print_hint)

lemma loop_return:
  assumes "input P (reads st) = Some line" and "test_exit (strip line) = Inr ()"
    and "meet req (VStr (strip line)) = Inr v"
  shows "prompt_loop P req st =
    Some (\<lparr>reads = Suc (reads st),
           events = events st
             @ (if hint req = [] then [] else [Print (Text (''('' @ hint req @ '')'')) (Some '' '')])
             @ [Input (character P), Meet (VStr (strip line))]\<rparr>, Inr v)"
  using assms by (subst prompt_loop.simps) (simp add: Let_def emit_eq events_print_hint)

lemma loop_retry:
  assumes "input P (reads st) = Some line" and "test_exit (strip line) = Inr ()"
    and "meet req (VStr (strip line)) = Inl (ValidationError e)"
  shows "prompt_loop P req st =
    prompt_loop P req
      \<lparr>reads = Suc (reads st),
       events = events st
         @ (if hint req = [] then [] else [Print (Text (''('' @ hint req @ '')'')) (Some '' '')])
         @ [Input (character P), Meet (VStr (strip line)), Print (Error e) None]\<rparr>"
  using assms by (subst prompt_loop.simps) (simp add: Let_def emit_eq events_print_hint)

lemma loop_eof:
  assumes "input P (reads st) = None"
  shows "prompt_loop P req st = Some (emit (Input (character P)) (print_hint req st), Inl EOFError)"
  using assms by (subst prompt_loop.simps) (simp add: Let_def)


lemma prompt_exit:
  assumes "input P (reads st) = Some line" and "test_exit (strip line) = Inl Exit"
  shows "prompt P req st =
    Some (\<lparr>reads = Suc (reads st),
           events = events st
             @ (if describe req = [] then [] else [Print (Text (describe req)) None])
             @ (if hint req = [] then [] else [Print (Text (''('' @ hint req @ '')'')) (Some '' '')])
             @ [Input (character P)]\<rparr>, Inl Exit)"
proof -
  have "input P (reads (print_requirement req st)) = Some line"
    using assms(1) by simp
  then show ?thesis
    unfolding prompt_def using assms(2)
    by (simp add: loop_exit events_print_requirement)
qed

lemma loop_exit_after_rejections:
  assumes "\<forall>j<n. \<exists>l e. input P (reads st + j) = Some l \<and> test_exit (strip l) = Inr ()
             \<and> meet req (VStr (strip l)) = Inl (ValidationError e)"
    and "input P (reads st + n) = Some line" and "test_exit (strip line) = Inl Exit"
  shows "\<exists>st'. prompt_loop P req st = Some (st', Inl Exit) \<and> reads st' = reads st + Suc n
           \<and> last (events st') = Input (character P)"
  using assms
proof (induction n arbitrary: st)
  case 0
  then show ?case by (simp add: loop_exit)
next
  case (Suc n)
  from Suc.prems(1) obtain l e where first: "input P (reads st) = Some l"
      "test_exit (strip l) = Inr ()" "meet req (VStr (strip l)) = Inl (ValidationError e)"
    by force
  define st1 where "st1 = \<lparr>reads = Suc (reads st),
       events = events st
         @ (if hint req = [] then [] else [Print (Text (''('' @ hint req @ '')'')) (Some '' '')])
         @ [Input (character P), Meet (VStr (strip l)), Print (Error e) None]\<rparr>"
  have step: "prompt_loop P req st = prompt_loop P req st1"
    unfolding st1_def using first by (rule loop_retry)
  have r1: "reads st1 = Suc (reads st)" by (simp add: st1_def)
  have "\<forall>j<n. \<exists>l e. input P (reads st1 + j) = Some l \<and> test_exit (strip l) = Inr ()
             \<and> meet req (VStr (strip l)) = Inl (ValidationError e)"
  proof (intro allI impI)
    fix j assume "j < n"
    then have "Suc j < Suc n" by simp
    with Suc.prems(1) show "\<exists>l e. input P (reads st1 + j) = Some l \<and> test_exit (strip l) = Inr ()
             \<and> meet req (VStr (strip l)) = Inl (ValidationError e)"
      unfolding r1 by (metis add_Suc_shift)
  qed
  moreover have "input P (reads st1 + n) = Some line" using Suc.prems(2) by (simp add: r1)
  ultimately obtain st' where "prompt_loop P req st1 = Some (st', Inl Exit)"
      "reads st' = reads st1 + Suc n" "last (events st') = Input (character P)"
    using Suc.IH [of st1] Suc.prems(3) by blast
  then show ?case using step r1 by simp
qed

text \<open>The definitions a concrete call of \<open>_test_exit\<close> unfolds.\<close>

lemmas exit_simps =
  test_exit_def EXIT_def lower_def lower_char_def upper_letters_def lower_letters_def
  strip_def is_space_def

section \<open>Chain\<close>

text \<open>
  C1. For every chain and every raw input, \<open>Chain.meet\<close> is the left-to-right nested
  application of its requirements. If the requirements before position \<open>i\<close> succeed and
  requirement \<open>i\<close> raises (a validation outcome or any other exception), \<open>Chain.meet\<close>
  raises the same exception, and the requirements whose \<open>meet\<close> was called are exactly
  those up to and including position \<open>i\<close>: none after it is invoked. The chain of
  \<open>Number()\<close>, \<open>Between(1, 3)\<close> and \<open>Menu(["a", "b", "c"])\<close> returns \<open>"b"\<close> on
  \<open>"2"\<close>; on \<open>"5"\<close> it fails with \<open>NotInRange(1, 3)\<close>, and the calls made are those of
  \<open>Number\<close> and \<open>Between\<close> only.
\<close>

theorem chain_meet_nested_application:
  "meet (Chain rs) raw = nested_application rs raw
   \<and> (\<forall>i x e. i < length rs \<and> nested_application (take i rs) raw = Inr x
                \<and> meet (rs ! i) x = Inl e
        \<longrightarrow> meet (Chain rs) raw = Inl e \<and> map fst (chain_calls rs raw) = take (Suc i) rs)
   \<and> meet (Chain [Number, Between 1 3, Menu [VStr ''a'', VStr ''b'', VStr ''c'']]) (VStr ''2'')
       = Inr (VStr ''b'')
   \<and> meet (Chain [Number, Between 1 3, Menu [VStr ''a'', VStr ''b'', VStr ''c'']]) (VStr ''5'')
       = Inl (ValidationError (NotInRange 1 3))
   \<and> chain_calls [Number, Between 1 3, Menu [VStr ''a'', VStr ''b'', VStr ''c'']] (VStr ''5'')
       = [(Number, VStr ''5''), (Between 1 3, VInt 5)]"
proof (intro conjI allI impI)
  show "meet (Chain rs) raw = nested_application rs raw"
    by (simp add: chain_loop_nested)
next
  fix i x e
  assume h: "i < length rs \<and> nested_application (take i rs) raw = Inr x \<and> meet (rs ! i) x = Inl e"
  then have pre: "chain_loop (take i rs) raw = Inr x" by (simp add: chain_loop_nested)
  from h pre show "meet (Chain rs) raw = Inl e"
    using chain_first_failure(1) [of i rs raw x e] by simp
  from h pre show "map fst (chain_calls rs raw) = take (Suc i) rs"
    using chain_first_failure(2) [of i rs raw x e] by simp
next
  show "meet (Chain [Number, Between 1 3, Menu [VStr ''a'', VStr ''b'', VStr ''c'']]) (VStr ''2'')
       = Inr (VStr ''b'')"
    by (simp add: parse_simps)
next
  show "meet (Chain [Number, Between 1 3, Menu [VStr ''a'', VStr ''b'', VStr ''c'']]) (VStr ''5'')
       = Inl (ValidationError (NotInRange 1 3))"
    by (simp add: parse_simps)
next
  show "chain_calls [Number, Between 1 3, Menu [VStr ''a'', VStr ''b'', VStr ''c'']] (VStr ''5'')
       = [(Number, VStr ''5''), (Between 1 3, VInt 5)]"
    by (simp add: parse_simps)
qed

theorem chain_meet_nested_application_witness:
  "(1::nat) < length [Number, Between 1 3, Menu [VStr ''a'', VStr ''b'', VStr ''c'']]
   \<and> nested_application (take 1 [Number, Between 1 3, Menu [VStr ''a'', VStr ''b'', VStr ''c'']])
        (VStr ''5'') = Inr (VInt 5)
   \<and> meet ([Number, Between 1 3, Menu [VStr ''a'', VStr ''b'', VStr ''c'']] ! 1) (VInt 5)
        = Inl (ValidationError (NotInRange 1 3))
   \<and> meet (Chain [Number, Between 1 3, Menu [VStr ''a'', VStr ''b'', VStr ''c'']]) (VStr ''5'')
        = Inl (ValidationError (NotInRange 1 3))
   \<and> map fst (chain_calls [Number, Between 1 3, Menu [VStr ''a'', VStr ''b'', VStr ''c'']]
        (VStr ''5'')) = take (Suc 1) [Number, Between 1 3, Menu [VStr ''a'', VStr ''b'', VStr ''c'']]"
proof -
  let ?rs = "[Number, Between 1 3, Menu [VStr ''a'', VStr ''b'', VStr ''c'']]"
  have h1: "(1::nat) < length ?rs" by simp
  have h2: "nested_application (take 1 ?rs) (VStr ''5'') = Inr (VInt 5)"
    by (simp add: nested_application_def parse_simps)
  have h3: "meet (?rs ! 1) (VInt 5) = Inl (ValidationError (NotInRange 1 3))" by simp
  from chain_meet_nested_application [of ?rs "VStr ''5''"]
  have "\<forall>i x e. i < length ?rs \<and> nested_application (take i ?rs) (VStr ''5'') = Inr x
                \<and> meet (?rs ! i) x = Inl e
        \<longrightarrow> meet (Chain ?rs) (VStr ''5'') = Inl e
            \<and> map fst (chain_calls ?rs (VStr ''5'')) = take (Suc i) ?rs"
    by blast
  with h1 h2 h3 have "meet (Chain ?rs) (VStr ''5'') = Inl (ValidationError (NotInRange 1 3))
            \<and> map fst (chain_calls ?rs (VStr ''5'')) = take (Suc 1) ?rs"
    by blast
  with h1 h2 h3 show ?thesis by blast
qed

text \<open>
  C8. The hint of a chain is the hints of its requirements, the empty ones left out, in the
  order of the requirements and joined with a comma and a space; its description is the
  non-empty descriptions of its requirements, in the same order, joined with a newline.
  Joining is concatenation with the separator between neighbours. A chain of a number, a
  range and a choice has the hint \<open>1 - 3, yes/no\<close>; a chain of two menus with a number
  between them has the lines of the first menu followed by those of the second.
\<close>

theorem chain_hint_describe:
  "hint (Chain rs) = py_join '', '' (filter (\<lambda>h. h \<noteq> []) (map hint rs))
   \<and> describe (Chain rs) = py_join [CHR 0x0A] (filter (\<lambda>d. d \<noteq> []) (map describe rs))
   \<and> (\<forall>sep x xs. py_join sep [] = []
          \<and> py_join sep (x # xs) = x @ concat (map (\<lambda>y. sep @ y) xs))
   \<and> hint (Chain [Number, Between 1 3, Choice [(''yes'', VBool True), (''no'', VBool False)]])
        = ''1 - 3, yes/no''
   \<and> describe (Chain [Menu [VStr ''a'', VStr ''b''], Number, Menu [VInt 7]])
        = ''1. a'' @ [CHR 0x0A] @ ''2. b'' @ [CHR 0x0A] @ ''1. 7''"
proof (intro conjI allI)
  show "hint (Chain rs) = py_join '', '' (filter (\<lambda>h. h \<noteq> []) (map hint rs))"
    by (simp add: comprehension_filter)
  show "describe (Chain rs) = py_join [CHR 0x0A] (filter (\<lambda>d. d \<noteq> []) (map describe rs))"
    by (simp add: comprehension_filter)
  show "py_join sep [] = []" for sep by simp
  show "py_join sep (x # xs) = x @ concat (map (\<lambda>y. sep @ y) xs)" for sep x xs
    by (rule py_join_concat)
  show "hint (Chain [Number, Between 1 3, Choice [(''yes'', VBool True), (''no'', VBool False)]])
        = ''1 - 3, yes/no''"
    by (simp add: show_int_def show_nat.simps digit_char_def)
  show "describe (Chain [Menu [VStr ''a'', VStr ''b''], Number, Menu [VInt 7]])
        = ''1. a'' @ [CHR 0x0A] @ ''2. b'' @ [CHR 0x0A] @ ''1. 7''"
    by (simp add: show_int_def show_nat.simps digit_char_def enumerate_eq_zip upt_rec)
qed

text \<open>
  C10. A chain of no requirements returns every input unchanged, and its hint and its
  description are both the empty string.
\<close>

theorem empty_chain_identity:
  "meet (Chain []) raw = Inr raw \<and> hint (Chain []) = [] \<and> describe (Chain []) = []"
  by simp

section \<open>The single requirements\<close>

text \<open>
  C6. For all bounds and every integer \<open>v\<close>, \<open>Between(min, max).meet(v)\<close> returns \<open>v\<close>
  unchanged when \<open>min \<le> v \<le> max\<close> and fails with \<open>NotInRange(min, max)\<close> otherwise, that
  is when \<open>v < min\<close> or \<open>v > max\<close>. \<open>Between(1, 5)\<close> accepts 1, 3 and 5 and rejects 0
  with \<open>NotInRange(1, 5)\<close>.
\<close>

theorem between_meet_closed_interval:
  "meet (Between mn mx) (VInt v) =
     (if mn \<le> v \<and> v \<le> mx then Inr (VInt v) else Inl (ValidationError (NotInRange mn mx)))
   \<and> meet (Between 1 5) (VInt 1) = Inr (VInt 1)
   \<and> meet (Between 1 5) (VInt 3) = Inr (VInt 3)
   \<and> meet (Between 1 5) (VInt 5) = Inr (VInt 5)
   \<and> meet (Between 1 5) (VInt 0) = Inl (ValidationError (NotInRange 1 5))"
  by simp

text \<open>
  C7. \<open>Number().meet\<close> parses a string as an integer: it returns the integer when
  \<open>int\<close> accepts the string and fails with \<open>NotANumber\<close> carrying the string itself when
  it does not. The decimal text of an integer is accepted and gives that integer when it
  has at most 4300 digits, and is rejected with \<open>NotANumber\<close> when it has more.
  \<open>"42"\<close> gives 42, a no-break space followed by \<open>5\<close> gives 5, and \<open>"abc"\<close> gives
  \<open>NotANumber("abc")\<close>.
\<close>

theorem number_meet_parses:
  "meet Number (VStr s) =
     (case int_of_str s of
        Some n \<Rightarrow> Inr (VInt n)
      | None \<Rightarrow> Inl (ValidationError (NotANumber (VStr s))))
   \<and> (\<forall>i. meet Number (VStr (show_int i)) =
          (if length (show_nat (nat \<bar>i\<bar>)) \<le> 4300 then Inr (VInt i)
           else Inl (ValidationError (NotANumber (VStr (show_int i))))))
   \<and> meet Number (VStr ''42'') = Inr (VInt 42)
   \<and> meet Number (VStr [CHR 0xA0, CHR ''5'']) = Inr (VInt 5)
   \<and> meet Number (VStr ''abc'') = Inl (ValidationError (NotANumber (VStr ''abc'')))"
proof (intro conjI allI)
  show "meet Number (VStr s) =
     (case int_of_str s of
        Some n \<Rightarrow> Inr (VInt n)
      | None \<Rightarrow> Inl (ValidationError (NotANumber (VStr s))))"
    by (simp split: option.splits)
  show "meet Number (VStr (show_int i)) =
          (if length (show_nat (nat \<bar>i\<bar>)) \<le> 4300 then Inr (VInt i)
           else Inl (ValidationError (NotANumber (VStr (show_int i)))))" for i
    by (simp add: int_of_str_show_int max_str_digits_def)
  show "meet Number (VStr ''42'') = Inr (VInt 42)" by (simp add: parse_simps)
  show "meet Number (VStr [CHR 0xA0, CHR ''5'']) = Inr (VInt 5)" by (simp add: parse_simps)
  show "meet Number (VStr ''abc'') = Inl (ValidationError (NotANumber (VStr ''abc'')))"
    by (simp add: parse_simps)
qed

text \<open>
  C3, as the specification states it, at the options \<open>yes\<close> and \<open>no\<close> and the label
  \<open>maybe\<close>: the outcome raised does not carry the list of the labels. \<open>Choice.meet\<close>
  passes \<open>self.hint()\<close> to \<open>NotAnOption\<close>, so the payload is the one string
  \<open>yes/no\<close>.
\<close>

theorem choice_payload_counterexample:
  "meet (Choice [(''yes'', VBool True), (''no'', VBool False)]) (VStr ''maybe'')
     = Inl (ValidationError (NotAnOption (VStr ''yes/no'')))
   \<and> meet (Choice [(''yes'', VBool True), (''no'', VBool False)]) (VStr ''maybe'')
     \<noteq> Inl (ValidationError (NotAnOption (VList [VStr ''yes'', VStr ''no''])))"
  by simp

text \<open>
  C3, amended. For every options mapping and every string \<open>label\<close>,
  \<open>Choice(options).meet(label)\<close> returns the value mapped to \<open>label\<close> when it is a key,
  and when it is not a key it fails with a \<open>NotAnOption\<close> outcome carrying the hint of
  the choice: the labels joined with \<open>/\<close> into one string. With \<open>yes\<close> mapped to
  \<open>True\<close> and \<open>no\<close> to \<open>False\<close>, \<open>yes\<close> gives \<open>True\<close> and \<open>maybe\<close> fails with
  \<open>NotAnOption("yes/no")\<close>.
\<close>

theorem choice_meet_lookup:
  "meet (Choice options) (VStr label) =
     (case map_of options label of
        Some x \<Rightarrow> Inr x
      | None \<Rightarrow> Inl (ValidationError (NotAnOption (VStr (py_join ''/'' (map fst options))))))
   \<and> (map_of options label = None) = (label \<notin> set (map fst options))
   \<and> meet (Choice [(''yes'', VBool True), (''no'', VBool False)]) (VStr ''yes'') = Inr (VBool True)
   \<and> meet (Choice [(''yes'', VBool True), (''no'', VBool False)]) (VStr ''maybe'')
       = Inl (ValidationError (NotAnOption (VStr ''yes/no'')))"
proof (intro conjI)
  show keys: "(map_of options label = None) = (label \<notin> set (map fst options))"
    by (simp add: map_of_eq_None_iff)
  show "meet (Choice options) (VStr label) =
     (case map_of options label of
        Some x \<Rightarrow> Inr x
      | None \<Rightarrow> Inl (ValidationError (NotAnOption (VStr (py_join ''/'' (map fst options))))))"
    using keys by (auto split: option.splits)
  show "meet (Choice [(''yes'', VBool True), (''no'', VBool False)]) (VStr ''yes'') = Inr (VBool True)"
    by simp
  show "meet (Choice [(''yes'', VBool True), (''no'', VBool False)]) (VStr ''maybe'')
       = Inl (ValidationError (NotAnOption (VStr ''yes/no'')))"
    by simp
qed

text \<open>
  C4. On an integer \<open>n\<close>, \<open>Menu(options).meet\<close> returns the item at the 1-based index
  \<open>n\<close> when \<open>1 \<le> n \<le> len(options)\<close> and raises \<open>AssertionError\<close> otherwise (assertions
  enabled, as the interpreter runs by default); whatever its argument, it never raises a
  validation outcome. \<open>Prompt.menu\<close> prompts with the chain of \<open>Number()\<close>,
  \<open>Between(1, len(options))\<close> and \<open>Menu(options)\<close>, and in that chain every value
  \<open>Menu.meet\<close> is called with is an integer within \<open>1 .. len(options)\<close>, so the chain
  never raises \<open>AssertionError\<close>.
\<close>

theorem menu_precondition:
  "meet (Menu options) (VInt n) =
     (if 1 \<le> n \<and> n \<le> int (length options) then Inr (options ! nat (n - 1))
      else Inl AssertionError)
   \<and> (\<forall>v e. meet (Menu options) v \<noteq> Inl (ValidationError e))
   \<and> (\<forall>raw v. (Menu options, v)
          \<in> set (chain_calls [Number, Between 1 (int (length options)), Menu options] raw)
        \<longrightarrow> (\<exists>n. v = VInt n \<and> 1 \<le> n \<and> n \<le> int (length options)))
   \<and> (\<forall>raw. meet (Chain [Number, Between 1 (int (length options)), Menu options]) raw
          \<noteq> Inl AssertionError)
   \<and> menu P options st
       = prompt P (Chain [Number, Between 1 (int (length options)), Menu options]) st"
proof (intro conjI allI impI)
  show "meet (Menu options) (VInt n) =
     (if 1 \<le> n \<and> n \<le> int (length options) then Inr (options ! nat (n - 1))
      else Inl AssertionError)"
    by simp
  show "meet (Menu options) v \<noteq> Inl (ValidationError e)" for v e
    by (simp split: option.splits)
  show "\<exists>n. v = VInt n \<and> 1 \<le> n \<and> n \<le> int (length options)"
    if "(Menu options, v)
          \<in> set (chain_calls [Number, Between 1 (int (length options)), Menu options] raw)"
    for raw v
    using that by (rule menu_chain_calls)
  show "meet (Chain [Number, Between 1 (int (length options)), Menu options]) raw
          \<noteq> Inl AssertionError" for raw
    by (rule menu_chain_no_assertion)
  show "menu P options st
       = prompt P (Chain [Number, Between 1 (int (length options)), Menu options]) st"
    by (simp add: menu_def)
qed

theorem menu_precondition_witness:
  "(Menu [VStr ''a'', VStr ''b'', VStr ''c''], VInt 2)
     \<in> set (chain_calls [Number, Between 1 (int (length [VStr ''a'', VStr ''b'', VStr ''c''])),
                          Menu [VStr ''a'', VStr ''b'', VStr ''c'']] (VStr ''2''))
   \<and> (\<exists>n. VInt 2 = VInt n \<and> 1 \<le> n \<and> n \<le> int (length [VStr ''a'', VStr ''b'', VStr ''c'']))"
proof -
  let ?opts = "[VStr ''a'', VStr ''b'', VStr ''c'']"
  have h: "(Menu ?opts, VInt 2)
     \<in> set (chain_calls [Number, Between 1 (int (length ?opts)), Menu ?opts] (VStr ''2''))"
    by (simp add: parse_simps)
  from menu_precondition [of ?opts]
  have "\<forall>raw v. (Menu ?opts, v)
          \<in> set (chain_calls [Number, Between 1 (int (length ?opts)), Menu ?opts] raw)
        \<longrightarrow> (\<exists>n. v = VInt n \<and> 1 \<le> n \<and> n \<le> int (length ?opts))"
    by blast
  with h have "\<exists>n. VInt 2 = VInt n \<and> 1 \<le> n \<and> n \<le> int (length ?opts)" by blast
  with h show ?thesis by blast
qed

section \<open>The prompt loop\<close>

text \<open>
  C2. Let the line the reader returns be one whose stripped, lowercased form contains an
  exit keyword (\<open>exit\<close> or \<open>quit\<close>) as a substring. Whatever the requirement, a turn of
  the loop that reads this line ends the loop by raising \<open>Exit\<close>: the turn prints the hint
  (when there is one) and reads, and nothing else, so \<open>meet\<close> is not called on the line and
  no validation message is written for it. A prompting call that reads it first prints the
  description and the hint (when there are any), reads, and raises \<open>Exit\<close>; so do
  \<open>between\<close>, \<open>choose\<close>, \<open>menu\<close>, \<open>name\<close> and \<open>number\<close>. When the \<open>n\<close> lines read
  before it were all rejected by the requirement, the call still raises \<open>Exit\<close>, after
  \<open>n + 1\<close> reads and with the read as its last action: the handler of validation errors
  does not catch it. \<open>Exit\<close> is no \<open>ValidationError\<close>.
\<close>

theorem exit_keyword_cancels:
  assumes "input P (reads st + n) = Some line"
    and "k \<in> set EXIT"
    and "lower (strip line) = p @ k @ q"
  shows
    "(\<forall>st0. reads st0 = reads st + n \<longrightarrow>
        prompt_loop P req st0 =
          Some (\<lparr>reads = Suc (reads st0),
                 events = events st0
                   @ (if hint req = [] then []
                      else [Print (Text (''('' @ hint req @ '')'')) (Some '' '')])
                   @ [Input (character P)]\<rparr>, Inl Exit)
      \<and> prompt P req st0 =
          Some (\<lparr>reads = Suc (reads st0),
                 events = events st0
                   @ (if describe req = [] then [] else [Print (Text (describe req)) None])
                   @ (if hint req = [] then []
                      else [Print (Text (''('' @ hint req @ '')'')) (Some '' '')])
                   @ [Input (character P)]\<rparr>, Inl Exit)
      \<and> map_option snd (between P mn mx st0) = Some (Inl Exit)
      \<and> map_option snd (choose_option P options st0) = Some (Inl Exit)
      \<and> map_option snd (menu P items st0) = Some (Inl Exit)
      \<and> map_option snd (name P st0) = Some (Inl Exit)
      \<and> map_option snd (number P st0) = Some (Inl Exit))
     \<and> ((\<forall>j<n. \<exists>l e. input P (reads st + j) = Some l \<and> test_exit (strip l) = Inr ()
                  \<and> meet req (VStr (strip l)) = Inl (ValidationError e))
          \<longrightarrow> (\<exists>st'. prompt P req st = Some (st', Inl Exit)
                \<and> reads st' = reads st + Suc n
                \<and> last (events st') = Input (character P)))
     \<and> (\<forall>e. Exit \<noteq> ValidationError e)"
proof -
  have ex: "test_exit (strip line) = Inl Exit"
    using assms(2,3) by (auto simp: test_exit_iff)
  have first: "prompt_loop P req st0 =
          Some (\<lparr>reads = Suc (reads st0),
                 events = events st0
                   @ (if hint req = [] then []
                      else [Print (Text (''('' @ hint req @ '')'')) (Some '' '')])
                   @ [Input (character P)]\<rparr>, Inl Exit)"
    if "reads st0 = reads st + n" for st0
    using that assms(1) ex by (simp add: loop_exit)
  have call: "prompt P r st0 =
          Some (\<lparr>reads = Suc (reads st0),
                 events = events st0
                   @ (if describe r = [] then [] else [Print (Text (describe r)) None])
                   @ (if hint r = [] then []
                      else [Print (Text (''('' @ hint r @ '')'')) (Some '' '')])
                   @ [Input (character P)]\<rparr>, Inl Exit)"
    if "reads st0 = reads st + n" for st0 r
    using that assms(1) ex by (simp add: prompt_exit)
  have ops: "map_option snd (between P mn mx st0) = Some (Inl Exit)
      \<and> map_option snd (choose_option P options st0) = Some (Inl Exit)
      \<and> map_option snd (menu P items st0) = Some (Inl Exit)
      \<and> map_option snd (name P st0) = Some (Inl Exit)
      \<and> map_option snd (number P st0) = Some (Inl Exit)"
    if "reads st0 = reads st + n" for st0
    unfolding between_def choose_option_def menu_def name_def number_def
    by (simp only: call [OF that] option.map_sel option.simps snd_conv simp_thms)
  have later: "\<exists>st'. prompt P req st = Some (st', Inl Exit)
                \<and> reads st' = reads st + Suc n
                \<and> last (events st') = Input (character P)"
    if rej: "\<forall>j<n. \<exists>l e. input P (reads st + j) = Some l \<and> test_exit (strip l) = Inr ()
                  \<and> meet req (VStr (strip l)) = Inl (ValidationError e)"
  proof -
    let ?s = "print_requirement req st"
    have "\<forall>j<n. \<exists>l e. input P (reads ?s + j) = Some l \<and> test_exit (strip l) = Inr ()
                  \<and> meet req (VStr (strip l)) = Inl (ValidationError e)"
      using rej by simp
    moreover have "input P (reads ?s + n) = Some line" using assms(1) by simp
    ultimately have "\<exists>st'. prompt_loop P req ?s = Some (st', Inl Exit)
        \<and> reads st' = reads ?s + Suc n \<and> last (events st') = Input (character P)"
      using ex by (rule loop_exit_after_rejections)
    then show ?thesis by (simp add: prompt_def)
  qed
  show ?thesis
    using first call ops later by blast
qed

theorem exit_keyword_cancels_witness:
  "input \<lparr>character = ''> '', input = (\<lambda>i. if i = 0 then Some ''abc'' else Some '' Quit now'')\<rparr>
       (reads \<lparr>reads = 0, events = []\<rparr> + 1) = Some '' Quit now''
   \<and> ''quit'' \<in> set EXIT
   \<and> lower (strip '' Quit now'') = [] @ ''quit'' @ '' now''
   \<and> input \<lparr>character = ''> '', input = (\<lambda>i. if i = 0 then Some ''abc'' else Some '' Quit now'')\<rparr>
       (reads \<lparr>reads = 0, events = []\<rparr> + 0) = Some ''abc''
   \<and> test_exit (strip ''abc'') = Inr ()
   \<and> meet Number (VStr (strip ''abc'')) = Inl (ValidationError (NotANumber (VStr ''abc'')))
   \<and> (\<exists>st'. prompt
          \<lparr>character = ''> '', input = (\<lambda>i. if i = 0 then Some ''abc'' else Some '' Quit now'')\<rparr>
          Number \<lparr>reads = 0, events = []\<rparr> = Some (st', Inl Exit)
        \<and> reads st' = 2 \<and> last (events st') = Input ''> '')
   \<and> prompt_loop
        \<lparr>character = ''> '', input = (\<lambda>i. if i = 0 then Some ''abc'' else Some '' Quit now'')\<rparr>
        Number \<lparr>reads = 1, events = []\<rparr>
       = Some (\<lparr>reads = 2, events = [Input ''> '']\<rparr>, Inl Exit)"
proof -
  let ?P = "\<lparr>character = ''> '',
             input = (\<lambda>i::nat. if i = 0 then Some ''abc'' else Some '' Quit now'')\<rparr>"
  let ?st = "\<lparr>reads = 0, events = []\<rparr>"
  have h1: "input ?P (reads ?st + 1) = Some '' Quit now''" by simp
  have h2: "''quit'' \<in> set EXIT" by (simp add: EXIT_def)
  have h3: "lower (strip '' Quit now'') = [] @ ''quit'' @ '' now''"
    by (simp add: exit_simps)
  have r1: "input ?P (reads ?st + 0) = Some ''abc''" by simp
  have r2: "test_exit (strip ''abc'') = Inr ()" by (simp add: exit_simps)
  have r3: "meet Number (VStr (strip ''abc'')) = Inl (ValidationError (NotANumber (VStr ''abc'')))"
    by (simp add: parse_simps)
  have rej: "\<forall>j<1. \<exists>l e. input ?P (reads ?st + j) = Some l \<and> test_exit (strip l) = Inr ()
                  \<and> meet Number (VStr (strip l)) = Inl (ValidationError e)"
    using r1 r2 r3 by auto
  note inst = exit_keyword_cancels [OF h1 h2 h3, of Number]
  from inst rej have late: "\<exists>st'. prompt ?P Number ?st = Some (st', Inl Exit)
        \<and> reads st' = reads ?st + Suc 1 \<and> last (events st') = Input (character ?P)"
    by blast
  from inst have "\<forall>st0. reads st0 = reads ?st + 1 \<longrightarrow>
        prompt_loop ?P Number st0 =
          Some (\<lparr>reads = Suc (reads st0),
                 events = events st0
                   @ (if hint Number = [] then []
                      else [Print (Text (''('' @ hint Number @ '')'')) (Some '' '')])
                   @ [Input (character ?P)]\<rparr>, Inl Exit)"
    by blast
  then have now: "prompt_loop ?P Number \<lparr>reads = 1, events = []\<rparr>
       = Some (\<lparr>reads = 2, events = [Input ''> '']\<rparr>, Inl Exit)"
    by simp
  from late have late': "\<exists>st'. prompt ?P Number ?st = Some (st', Inl Exit)
        \<and> reads st' = 2 \<and> last (events st') = Input ''> ''"
    by (simp add: numeral_2_eq_2)
  show ?thesis
    using h1 h2 h3 r1 r2 r3 late' now by blast
qed

text \<open>
  C5. With a reader that returns \<open>abc\<close> and then \<open>2\<close>, \<open>Prompt.between(1, 3)\<close> prints
  the hint, reads, calls \<open>meet\<close>, writes one validation message, the \<open>NotANumber\<close> outcome
  for \<open>abc\<close> (shown as \<open>'abc' is not a number\<close>), prints the hint and reads again, and
  returns the integer 2. In general, a turn of the loop whose line is no exit request and
  fails with a validation outcome writes that outcome and goes on with the next turn, and
  a turn whose line meets the requirement returns the converted value.
\<close>

theorem between_reprompts_then_returns:
  "(input P (reads st) = Some ''abc'' \<and> input P (Suc (reads st)) = Some ''2'' \<longrightarrow>
      between P 1 3 st =
        Some (\<lparr>reads = reads st + 2,
               events = events st @
                 [Print (Text ''(1 - 3)'') (Some '' ''), Input (character P), Meet (VStr ''abc''),
                  Print (Error (NotANumber (VStr ''abc''))) None,
                  Print (Text ''(1 - 3)'') (Some '' ''), Input (character P), Meet (VStr ''2'')]\<rparr>,
              Inr (VInt 2)))
   \<and> printed_str (Error (NotANumber (VStr ''abc''))) = [CHR 0x27] @ ''abc'' @ [CHR 0x27] @ '' is not a number''
   \<and> (input P (reads st) = Some line \<and> test_exit (strip line) = Inr ()
        \<and> meet req (VStr (strip line)) = Inl (ValidationError e) \<longrightarrow>
      prompt_loop P req st =
        prompt_loop P req
          \<lparr>reads = Suc (reads st),
           events = events st
             @ (if hint req = [] then [] else [Print (Text (''('' @ hint req @ '')'')) (Some '' '')])
             @ [Input (character P), Meet (VStr (strip line)), Print (Error e) None]\<rparr>)
   \<and> (input P (reads st) = Some line \<and> test_exit (strip line) = Inr ()
        \<and> meet req (VStr (strip line)) = Inr v \<longrightarrow>
      prompt_loop P req st =
        Some (\<lparr>reads = Suc (reads st),
               events = events st
                 @ (if hint req = [] then [] else [Print (Text (''('' @ hint req @ '')'')) (Some '' '')])
                 @ [Input (character P), Meet (VStr (strip line))]\<rparr>, Inr v))"
proof (intro conjI impI)
  assume a: "input P (reads st) = Some ''abc'' \<and> input P (Suc (reads st)) = Some ''2''"
  let ?req = "Chain [Number, Between 1 3]"
  have h: "hint ?req = ''1 - 3''" by (simp add: show_int_def show_nat.simps digit_char_def)
  have d: "describe ?req = []" by simp
  let ?st1 = "\<lparr>reads = Suc (reads st),
           events = events st
             @ (if hint ?req = [] then [] else [Print (Text (''('' @ hint ?req @ '')'')) (Some '' '')])
             @ [Input (character P), Meet (VStr (strip ''abc'')),
                Print (Error (NotANumber (VStr ''abc''))) None]\<rparr>"
  have s0: "print_requirement ?req st = st"
    unfolding print_requirement_def Let_def d by simp
  have 1: "prompt_loop P ?req st = prompt_loop P ?req ?st1"
  proof (rule loop_retry)
    show "input P (reads st) = Some ''abc''" using a by simp
    show "test_exit (strip ''abc'') = Inr ()" by (simp add: exit_simps)
    show "meet ?req (VStr (strip ''abc'')) = Inl (ValidationError (NotANumber (VStr ''abc'')))"
      by (simp add: parse_simps)
  qed
  have 2: "prompt_loop P ?req ?st1 =
      Some (\<lparr>reads = Suc (reads ?st1),
               events = events ?st1
                 @ (if hint ?req = [] then [] else [Print (Text (''('' @ hint ?req @ '')'')) (Some '' '')])
                 @ [Input (character P), Meet (VStr (strip ''2''))]\<rparr>, Inr (VInt 2))"
  proof (rule loop_return)
    show "input P (reads ?st1) = Some ''2''" using a by simp
    show "test_exit (strip ''2'') = Inr ()" by (simp add: exit_simps)
    show "meet ?req (VStr (strip ''2'')) = Inr (VInt 2)" by (simp add: parse_simps)
  qed
  have s2: "strip ''2'' = ''2''" and sabc: "strip ''abc'' = ''abc''"
    by (simp_all add: strip_def is_space_def)
  show "between P 1 3 st =
        Some (\<lparr>reads = reads st + 2,
               events = events st @
                 [Print (Text ''(1 - 3)'') (Some '' ''), Input (character P), Meet (VStr ''abc''),
                  Print (Error (NotANumber (VStr ''abc''))) None,
                  Print (Text ''(1 - 3)'') (Some '' ''), Input (character P), Meet (VStr ''2'')]\<rparr>,
              Inr (VInt 2))"
    unfolding between_def prompt_def s0 using 1 2
    by (simp add: s2 sabc show_int_def show_nat.simps digit_char_def)
next
  show "printed_str (Error (NotANumber (VStr ''abc''))) = [CHR 0x27] @ ''abc'' @ [CHR 0x27] @ '' is not a number''"
    by simp
next
  assume "input P (reads st) = Some line \<and> test_exit (strip line) = Inr ()
        \<and> meet req (VStr (strip line)) = Inl (ValidationError e)"
  then show "prompt_loop P req st =
        prompt_loop P req
          \<lparr>reads = Suc (reads st),
           events = events st
             @ (if hint req = [] then [] else [Print (Text (''('' @ hint req @ '')'')) (Some '' '')])
             @ [Input (character P), Meet (VStr (strip line)), Print (Error e) None]\<rparr>"
    by (simp add: loop_retry)
next
  assume "input P (reads st) = Some line \<and> test_exit (strip line) = Inr ()
        \<and> meet req (VStr (strip line)) = Inr v"
  then show "prompt_loop P req st =
        Some (\<lparr>reads = Suc (reads st),
               events = events st
                 @ (if hint req = [] then [] else [Print (Text (''('' @ hint req @ '')'')) (Some '' '')])
                 @ [Input (character P), Meet (VStr (strip line))]\<rparr>, Inr v)"
    by (simp add: loop_return)
qed

theorem between_reprompts_then_returns_witness:
  "input \<lparr>character = ''> '',
           input = (\<lambda>i. if i = 0 then Some ''abc'' else if i = 1 then Some ''2'' else None)\<rparr>
       (reads \<lparr>reads = 0, events = []\<rparr>) = Some ''abc''
   \<and> input \<lparr>character = ''> '',
           input = (\<lambda>i. if i = 0 then Some ''abc'' else if i = 1 then Some ''2'' else None)\<rparr>
       (Suc (reads \<lparr>reads = 0, events = []\<rparr>)) = Some ''2''
   \<and> between \<lparr>character = ''> '',
           input = (\<lambda>i. if i = 0 then Some ''abc'' else if i = 1 then Some ''2'' else None)\<rparr>
        1 3 \<lparr>reads = 0, events = []\<rparr>
       = Some (\<lparr>reads = 2,
                events =
                  [Print (Text ''(1 - 3)'') (Some '' ''), Input ''> '', Meet (VStr ''abc''),
                   Print (Error (NotANumber (VStr ''abc''))) None,
                   Print (Text ''(1 - 3)'') (Some '' ''), Input ''> '', Meet (VStr ''2'')]\<rparr>,
               Inr (VInt 2))
   \<and> test_exit (strip ''abc'') = Inr ()
   \<and> meet (Chain [Number, Between 1 3]) (VStr (strip ''abc''))
       = Inl (ValidationError (NotANumber (VStr ''abc'')))
   \<and> prompt_loop \<lparr>character = ''> '',
           input = (\<lambda>i. if i = 0 then Some ''abc'' else if i = 1 then Some ''2'' else None)\<rparr>
         (Chain [Number, Between 1 3]) \<lparr>reads = 0, events = []\<rparr>
       = prompt_loop \<lparr>character = ''> '',
           input = (\<lambda>i. if i = 0 then Some ''abc'' else if i = 1 then Some ''2'' else None)\<rparr>
         (Chain [Number, Between 1 3])
         \<lparr>reads = 1,
          events = [Print (Text ''(1 - 3)'') (Some '' ''), Input ''> '', Meet (VStr ''abc''),
                    Print (Error (NotANumber (VStr ''abc''))) None]\<rparr>
   \<and> input \<lparr>character = ''> '',
           input = (\<lambda>i. if i = 0 then Some ''abc'' else if i = 1 then Some ''2'' else None)\<rparr>
       (reads \<lparr>reads = 1, events = []\<rparr>) = Some ''2''
   \<and> test_exit (strip ''2'') = Inr ()
   \<and> meet (Chain [Number, Between 1 3]) (VStr (strip ''2'')) = Inr (VInt 2)
   \<and> prompt_loop \<lparr>character = ''> '',
           input = (\<lambda>i. if i = 0 then Some ''abc'' else if i = 1 then Some ''2'' else None)\<rparr>
         (Chain [Number, Between 1 3]) \<lparr>reads = 1, events = []\<rparr>
       = Some (\<lparr>reads = 2,
                events = [Print (Text ''(1 - 3)'') (Some '' ''), Input ''> '', Meet (VStr ''2'')]\<rparr>,
               Inr (VInt 2))"
proof -
  let ?P = "\<lparr>character = ''> '',
             input = (\<lambda>i::nat. if i = 0 then Some ''abc'' else if i = 1 then Some ''2'' else None)\<rparr>"
  let ?req = "Chain [Number, Between 1 3]"
  let ?st0 = "\<lparr>reads = 0, events = []\<rparr>"
  let ?st1 = "\<lparr>reads = 1, events = []\<rparr>"
  have a1: "input ?P (reads ?st0) = Some ''abc''" by simp
  have a2: "input ?P (Suc (reads ?st0)) = Some ''2''" by simp
  have b1: "test_exit (strip ''abc'') = Inr ()" by (simp add: exit_simps)
  have b2: "meet ?req (VStr (strip ''abc'')) = Inl (ValidationError (NotANumber (VStr ''abc'')))"
    by (simp add: parse_simps)
  have c0: "input ?P (reads ?st1) = Some ''2''" by simp
  have c1: "test_exit (strip ''2'') = Inr ()" by (simp add: exit_simps)
  have c2: "meet ?req (VStr (strip ''2'')) = Inr (VInt 2)" by (simp add: parse_simps)
  have h: "hint ?req = ''1 - 3''" by (simp add: show_int_def show_nat.simps digit_char_def)
  have s: "strip ''abc'' = ''abc''" "strip ''2'' = ''2''" by (simp_all add: strip_def is_space_def)
  note first = between_reprompts_then_returns
    [of ?P ?st0 "''abc''" ?req "NotANumber (VStr ''abc'')" "VInt 2"]
  note second = between_reprompts_then_returns
    [of ?P ?st1 "''2''" ?req "NotANumber (VStr ''abc'')" "VInt 2"]
  from first a1 a2 have r1: "between ?P 1 3 ?st0
       = Some (\<lparr>reads = 2,
                events =
                  [Print (Text ''(1 - 3)'') (Some '' ''), Input ''> '', Meet (VStr ''abc''),
                   Print (Error (NotANumber (VStr ''abc''))) None,
                   Print (Text ''(1 - 3)'') (Some '' ''), Input ''> '', Meet (VStr ''2'')]\<rparr>,
               Inr (VInt 2))"
    by simp
  from first a1 b1 b2 have "prompt_loop ?P ?req ?st0 =
        prompt_loop ?P ?req
          \<lparr>reads = Suc (reads ?st0),
           events = events ?st0
             @ (if hint ?req = [] then [] else [Print (Text (''('' @ hint ?req @ '')'')) (Some '' '')])
             @ [Input (character ?P), Meet (VStr (strip ''abc'')),
                Print (Error (NotANumber (VStr ''abc''))) None]\<rparr>"
    by blast
  then have r2: "prompt_loop ?P ?req ?st0
       = prompt_loop ?P ?req
         \<lparr>reads = 1,
          events = [Print (Text ''(1 - 3)'') (Some '' ''), Input ''> '', Meet (VStr ''abc''),
                    Print (Error (NotANumber (VStr ''abc''))) None]\<rparr>"
    unfolding h s by simp
  from second c0 c1 c2 have "prompt_loop ?P ?req ?st1 =
        Some (\<lparr>reads = Suc (reads ?st1),
               events = events ?st1
                 @ (if hint ?req = [] then [] else [Print (Text (''('' @ hint ?req @ '')'')) (Some '' '')])
                 @ [Input (character ?P), Meet (VStr (strip ''2''))]\<rparr>, Inr (VInt 2))"
    by blast
  then have r3: "prompt_loop ?P ?req ?st1
       = Some (\<lparr>reads = 2,
                events = [Print (Text ''(1 - 3)'') (Some '' ''), Input ''> '', Meet (VStr ''2'')]\<rparr>,
               Inr (VInt 2))"
    unfolding h s by simp
  show ?thesis
    using a1 a2 r1 b1 b2 r2 c0 c1 c2 r3 by blast
qed

end
